theory Spec2Isabelle
  imports Main
begin

section \<open>The service workers of the PWA demo\<close>

text \<open>
  The hand-written worker \<^verbatim>\<open>sw.js\<close> registers listeners for the install, activate
  and fetch events; the Workbox worker (the second half of \<^verbatim>\<open>app.js\<close>) registers
  routes and a catch handler with the library, of which the catch handler is embedded
  here: the routing itself is the library's. The listeners are promise chains over the
  browser's Cache Storage and \<^verbatim>\<open>fetch\<close>. They are embedded as functions on an explicit
  worker state. A promise is represented by the way it settles, and a chain by the state
  reached when every promise it started has settled.
\<close>

subsection \<open>Values\<close>

text \<open>An exception value: what a promise rejects with.\<close>

datatype error = TypeError string | QuotaExceededError | OtherError string

text \<open>A \<^verbatim>\<open>Response\<close>: its type, its status code and its body.\<close>

record response =
  rtype :: string
  status :: nat
  body :: string

text \<open>
  The fields of a \<^verbatim>\<open>Request\<close> that the workers read; \<open>http_method\<close> is its
  \<^verbatim>\<open>method\<close>.
\<close>

record request =
  http_method :: string
  url :: string
  mode :: string
  destination :: string

text \<open>
  How a promise of a response settles. The value of a fulfilled promise may be
  \<^verbatim>\<open>undefined\<close> (\<open>None\<close>): \<^verbatim>\<open>caches.match\<close> gives it on a miss, and the fetch
  listener tests the network's answer for it.
\<close>

datatype settled = Fulfilled "response option" | Rejected error

text \<open>How a promise without a value of interest settles (the argument of \<^verbatim>\<open>waitUntil\<close>).\<close>

datatype completion = Done | Failed error

text \<open>
  What a fetch listener does with its event: it returns without calling
  \<^verbatim>\<open>respondWith\<close>, which leaves the request to the browser's default handling, or it
  calls \<^verbatim>\<open>respondWith\<close> with a promise.
\<close>

datatype reaction = PassThrough | RespondWith settled

subsection \<open>The platform\<close>

text \<open>
  What the browser supplies: the worker's origin (\<^verbatim>\<open>self.location.origin\<close>), the
  resolution of a URL string against the worker's location, the network as the way a
  \<^verbatim>\<open>fetch\<close> of an absolute URL settles, and the keys under which the cache storage
  refuses to store.
\<close>

record platform =
  origin :: string
  resolve :: "string \<Rightarrow> string"
  network :: "string \<Rightarrow> settled"
  put_fails :: "string \<Rightarrow> bool"

text \<open>What the worker does to the outside, in the order it happens.\<close>

datatype effect =
    ConsoleLog string
  | ConsoleError string error
  | NetFetch string
  | CacheDelete string
  | SkipWaiting
  | ClientsClaim

text \<open>
  The worker's state: the cache storage, a list of named caches in the order of their
  creation, each a map from the request URL to the stored response; and the effects so
  far, oldest first.
\<close>

record sw_state =
  caches :: "(string \<times> (string \<rightharpoonup> response)) list"
  trace :: "effect list"

definition emit :: "effect \<Rightarrow> sw_state \<Rightarrow> sw_state" where
  "emit e st = st\<lparr>trace := trace st @ [e]\<rparr>"

text \<open>\<^verbatim>\<open>console.log(msg, arg)\<close> prints its arguments separated by a blank.\<close>

definition console_log :: "string \<Rightarrow> sw_state \<Rightarrow> sw_state" where
  "console_log msg st = emit (ConsoleLog msg) st"

definition console_error :: "string \<Rightarrow> error \<Rightarrow> sw_state \<Rightarrow> sw_state" where
  "console_error msg e st = emit (ConsoleError msg e) st"

text \<open>\<^verbatim>\<open>String.prototype.startsWith\<close>.\<close>

fun startsWith :: "string \<Rightarrow> string \<Rightarrow> bool" where
  "startsWith s [] = True"
| "startsWith [] (p # ps) = False"
| "startsWith (c # cs) (p # ps) = (c = p \<and> startsWith cs ps)"

subsection \<open>Cache storage\<close>

text \<open>
  A cache is keyed by the request URL alone (the listeners store and look up GET requests
  only, and \<^verbatim>\<open>Vary\<close> headers are left out). Opening, deleting and matching do not
  fail; storing may.
\<close>

text \<open>\<^verbatim>\<open>caches.keys()\<close>: the names of the caches.\<close>

definition cache_names :: "(string \<times> (string \<rightharpoonup> response)) list \<Rightarrow> string list" where
  "cache_names cs = map fst cs"

text \<open>\<^verbatim>\<open>caches.open(name)\<close> creates the cache when there is none of that name.\<close>

definition caches_open :: "string \<Rightarrow> sw_state \<Rightarrow> sw_state" where
  "caches_open name st =
     (if name \<in> set (cache_names (caches st)) then st
      else st\<lparr>caches := caches st @ [(name, Map.empty)]\<rparr>)"

text \<open>\<^verbatim>\<open>caches.delete(name)\<close>.\<close>

definition caches_delete :: "string \<Rightarrow> sw_state \<Rightarrow> sw_state" where
  "caches_delete name st =
     emit (CacheDelete name) (st\<lparr>caches := filter (\<lambda>nc. fst nc \<noteq> name) (caches st)\<rparr>)"

text \<open>\<^verbatim>\<open>caches.match(key)\<close>: the first hit over the caches in the order of their creation.\<close>

fun caches_match :: "(string \<times> (string \<rightharpoonup> response)) list \<Rightarrow> string \<Rightarrow> response option" where
  "caches_match [] key = None"
| "caches_match ((n, c) # cs) key =
     (case c key of Some r \<Rightarrow> Some r | None \<Rightarrow> caches_match cs key)"

text \<open>\<^verbatim>\<open>cache.match(key)\<close> on the cache of a given name.\<close>

definition cache_match :: "(string \<times> (string \<rightharpoonup> response)) list \<Rightarrow> string \<Rightarrow> string \<Rightarrow> response option" where
  "cache_match cs name key = caches_match (filter (\<lambda>nc. fst nc = name) cs) key"

text \<open>Storing a list of entries into the cache of a given name, later entries winning.\<close>

fun store_all :: "(string \<times> response) list \<Rightarrow> (string \<rightharpoonup> response) \<Rightarrow> (string \<rightharpoonup> response)" where
  "store_all [] c = c"
| "store_all ((k, r) # kvs) c = store_all kvs (c(k \<mapsto> r))"

definition store_in :: "string \<Rightarrow> (string \<times> response) list \<Rightarrow> sw_state \<Rightarrow> sw_state" where
  "store_in name kvs st =
     st\<lparr>caches := map (\<lambda>nc. if fst nc = name then (fst nc, store_all kvs (snd nc)) else nc) (caches st)\<rparr>"

text \<open>
  \<^verbatim>\<open>caches.open(name).then((cache) => { cache.put(request, response); })\<close>, a chain
  that nothing waits for and whose rejection nothing handles: the cache is opened, and
  the entry is stored unless the storage refuses it.
\<close>

definition cache_put :: "platform \<Rightarrow> string \<Rightarrow> string \<Rightarrow> response \<Rightarrow> sw_state \<Rightarrow> sw_state" where
  "cache_put env name key r st =
     (let st1 = caches_open name st
      in if put_fails env key then st1 else store_in name [(key, r)] st1)"

text \<open>
  \<^verbatim>\<open>cache.addAll(urls)\<close>: every URL is resolved and fetched; a fetch that rejects, or
  a response whose status is not an ok status (200 to 299) or is 206, rejects the whole
  call with a \<^verbatim>\<open>TypeError\<close>, and so does a refused store with the storage's error. Only
  when nothing failed are the entries stored, all of them.
\<close>

definition addable :: "response \<Rightarrow> bool" where
  "addable r = (200 \<le> status r \<and> status r \<le> 299 \<and> status r \<noteq> 206)"

fun fetch_all :: "platform \<Rightarrow> string list \<Rightarrow> error + (string \<times> response) list" where
  "fetch_all env [] = Inr []"
| "fetch_all env (u # us) =
     (case network env (resolve env u) of
        Rejected e \<Rightarrow> Inl (TypeError ''Failed to fetch'')
      | Fulfilled None \<Rightarrow> Inl (TypeError ''Failed to fetch'')
      | Fulfilled (Some r) \<Rightarrow>
          if \<not> addable r then Inl (TypeError ''Request failed'')
          else (case fetch_all env us of
                  Inl e \<Rightarrow> Inl e
                | Inr kvs \<Rightarrow> Inr ((resolve env u, r) # kvs)))"

definition emit_fetches :: "platform \<Rightarrow> string list \<Rightarrow> sw_state \<Rightarrow> sw_state" where
  "emit_fetches env urls st = st\<lparr>trace := trace st @ map (\<lambda>u. NetFetch (resolve env u)) urls\<rparr>"

definition addAll :: "platform \<Rightarrow> string \<Rightarrow> string list \<Rightarrow> sw_state \<Rightarrow> completion \<times> sw_state" where
  "addAll env name urls st =
     (let st1 = emit_fetches env urls st
      in case fetch_all env urls of
           Inl e \<Rightarrow> (Failed e, st1)
         | Inr kvs \<Rightarrow>
             if list_ex (\<lambda>kv. put_fails env (fst kv)) kvs then (Failed QuotaExceededError, st1)
             else (Done, store_in name kvs st1))"

subsection \<open>The hand-written worker (sw.js)\<close>

definition CACHE_NAME :: string where
  "CACHE_NAME = ''pwa-getstarted-v1''"

definition CACHE_URLS :: "string list" where
  "CACHE_URLS =
     [''./'',
      ''./index.html'',
      ''./styles.css'',
      ''./app.js'',
      ''./manifest.json'',
      ''./icons/icon-72.png'',
      ''./icons/icon-96.png'',
      ''./icons/icon-128.png'',
      ''./icons/icon-144.png'',
      ''./icons/icon-152.png'',
      ''./icons/icon-192.png'',
      ''./icons/icon-384.png'',
      ''./icons/icon-512.png'']"

text \<open>
  The install listener's chain up to its \<^verbatim>\<open>catch\<close>: open the cache, add the
  manifest, then ask to skip waiting. A rejection skips the remaining \<^verbatim>\<open>then\<close>.
\<close>

definition install_chain :: "platform \<Rightarrow> sw_state \<Rightarrow> completion \<times> sw_state" where
  "install_chain env st =
     (let st1 = caches_open CACHE_NAME (console_log ''[ServiceWorker] Install'' st);
          st2 = console_log ''[ServiceWorker] Caching app shell'' st1
      in case addAll env CACHE_NAME CACHE_URLS st2 of
           (Failed e, st3) \<Rightarrow> (Failed e, st3)
         | (Done, st3) \<Rightarrow>
             (Done, emit SkipWaiting (console_log ''[ServiceWorker] Skip waiting'' st3)))"

text \<open>
  The install listener: the promise it hands to \<^verbatim>\<open>event.waitUntil\<close> is the chain
  with its \<^verbatim>\<open>catch\<close>, whose callback logs the error and returns normally.
\<close>

definition install :: "platform \<Rightarrow> sw_state \<Rightarrow> completion \<times> sw_state" where
  "install env st =
     (case install_chain env st of
        (Done, st') \<Rightarrow> (Done, st')
      | (Failed e, st') \<Rightarrow> (Done, console_error ''[ServiceWorker] Cache failed:'' e st'))"

text \<open>The activate listener: the callback mapped over the stale names, in order.\<close>

fun remove_old :: "string list \<Rightarrow> sw_state \<Rightarrow> sw_state" where
  "remove_old [] st = st"
| "remove_old (cacheName # rest) st =
     remove_old rest
       (caches_delete cacheName
          (console_log (''[ServiceWorker] Removing old cache: '' @ cacheName) st))"

text \<open>The first \<^verbatim>\<open>then\<close> of the activate listener: the caches to delete, and their deletion.\<close>

definition activate_cleanup :: "sw_state \<Rightarrow> sw_state" where
  "activate_cleanup st =
     remove_old (filter (\<lambda>cacheName. cacheName \<noteq> CACHE_NAME) (cache_names (caches st))) st"

text \<open>The second \<^verbatim>\<open>then\<close>: claiming the clients.\<close>

definition activate_claim :: "sw_state \<Rightarrow> sw_state" where
  "activate_claim st = emit ClientsClaim (console_log ''[ServiceWorker] Claiming clients'' st)"

definition activate :: "sw_state \<Rightarrow> completion \<times> sw_state" where
  "activate st =
     (Done, activate_claim (activate_cleanup (console_log ''[ServiceWorker] Activate'' st)))"

text \<open>
  The fetch listener. The two guards return before \<^verbatim>\<open>respondWith\<close>. Otherwise the
  caches are searched for the request; on a miss the network is asked, a response that is
  defined and has status 200 is put into the current cache, and the network's answer is
  returned as it came; a rejected fetch is logged and, for a navigation, answered with
  the result of looking \<^verbatim>\<open>./index.html\<close> up in the caches, and thrown again otherwise.
\<close>

definition fetch_listener :: "platform \<Rightarrow> sw_state \<Rightarrow> request \<Rightarrow> reaction \<times> sw_state" where
  "fetch_listener env st req =
     (if http_method req \<noteq> ''GET'' then (PassThrough, st)
      else if \<not> startsWith (url req) (origin env) then (PassThrough, st)
      else
        (case caches_match (caches st) (url req) of
           Some cachedResponse \<Rightarrow>
             (RespondWith (Fulfilled (Some cachedResponse)),
              console_log (''[ServiceWorker] Serving from cache: '' @ url req) st)
         | None \<Rightarrow>
             (let st1 = emit (NetFetch (url req))
                          (console_log (''[ServiceWorker] Fetching: '' @ url req) st)
              in case network env (url req) of
                   Fulfilled None \<Rightarrow> (RespondWith (Fulfilled None), st1)
                 | Fulfilled (Some networkResponse) \<Rightarrow>
                     if status networkResponse \<noteq> 200
                     then (RespondWith (Fulfilled (Some networkResponse)), st1)
                     else (RespondWith (Fulfilled (Some networkResponse)),
                           cache_put env CACHE_NAME (url req) networkResponse st1)
                 | Rejected e \<Rightarrow>
                     (let st2 = console_error ''[ServiceWorker] Fetch failed:'' e st1
                      in if mode req = ''navigate''
                         then (RespondWith
                                 (Fulfilled (caches_match (caches st2) (resolve env ''./index.html''))),
                               st2)
                         else (RespondWith (Rejected e), st2)))))"

text \<open>The number of network fetches among the effects.\<close>

fun network_calls :: "effect list \<Rightarrow> nat" where
  "network_calls [] = 0"
| "network_calls (NetFetch u # es) = Suc (network_calls es)"
| "network_calls (e # es) = network_calls es"

subsection \<open>The Workbox worker (app.js)\<close>

text \<open>\<^verbatim>\<open>Response.error()\<close>: a response of type error, with status 0 and no body.\<close>

definition Response_error :: response where
  "Response_error = \<lparr>rtype = ''error'', status = 0, body = []\<rparr>"

text \<open>
  The callback given to \<^verbatim>\<open>workbox.routing.setCatchHandler\<close>, an async function: the
  promise it returns. The library's \<^verbatim>\<open>matchPrecache\<close> is a parameter.
\<close>

definition catch_handler :: "(string \<Rightarrow> response option) \<Rightarrow> request \<Rightarrow> settled" where
  "catch_handler matchPrecache req =
     (if mode req = ''navigate'' then Fulfilled (matchPrecache ''./index.html'')
      else Fulfilled (Some Response_error))"

subsection \<open>The origin of a URL\<close>

text \<open>
  The origin of a serialised absolute URL \<^verbatim>\<open>scheme://host:port/path?query#fragment\<close> is
  its scheme, host and port: the text up to the end of the authority. The fetch listener
  does not compute it; it is what "same origin" means for the requests the listener is
  meant to skip.
\<close>

definition url_origin :: "string \<Rightarrow> string" where
  "url_origin u =
     (let scheme = takeWhile (\<lambda>c. c \<noteq> CHR '':'') u;
          rest = drop (length scheme + 3) u
      in scheme @ ''://'' @ takeWhile (\<lambda>c. c \<notin> set ''/?#'') rest)"

subsection \<open>A sample deployment\<close>

text \<open>
  The worker served from \<^verbatim>\<open>https://pwa.example/sw.js\<close>: a relative URL \<^verbatim>\<open>./x\<close>
  resolves to \<^verbatim>\<open>https://pwa.example/x\<close>. Online, every URL is answered with status 200
  and a body naming the URL; offline, every fetch rejects.
\<close>

definition sample_resolve :: "string \<Rightarrow> string" where
  "sample_resolve u = ''https://pwa.example'' @ drop 1 u"

definition served :: "string \<Rightarrow> response" where
  "served u = \<lparr>rtype = ''basic'', status = 200, body = ''fresh '' @ u\<rparr>"

definition online :: platform where
  "online = \<lparr>origin = ''https://pwa.example'', resolve = sample_resolve,
             network = (\<lambda>u. Fulfilled (Some (served u))), put_fails = (\<lambda>u. False)\<rparr>"

definition offline :: platform where
  "offline = \<lparr>origin = ''https://pwa.example'', resolve = sample_resolve,
              network = (\<lambda>u. Rejected (TypeError ''Failed to fetch'')), put_fails = (\<lambda>u. False)\<rparr>"

definition fresh_worker :: sw_state where
  "fresh_worker = \<lparr>caches = [], trace = []\<rparr>"

definition old_page :: response where
  "old_page = \<lparr>rtype = ''basic'', status = 200, body = ''stale page''\<rparr>"

text \<open>A worker whose current cache holds an older copy of the start page, next to a stale cache.\<close>

definition primed_worker :: sw_state where
  "primed_worker =
     \<lparr>caches = [(''pwa-getstarted-v0'', [''https://pwa.example/old.css'' \<mapsto> old_page]),
                (''pwa-getstarted-v1'', [''https://pwa.example/index.html'' \<mapsto> old_page])],
      trace = []\<rparr>"

definition navigation :: request where
  "navigation = \<lparr>http_method = ''GET'', url = ''https://pwa.example/index.html'',
                 mode = ''navigate'', destination = ''document''\<rparr>"

definition image_request :: request where
  "image_request = \<lparr>http_method = ''GET'', url = ''https://pwa.example/photo.png'',
                    mode = ''no-cors'', destination = ''image''\<rparr>"

definition about_navigation :: request where
  "about_navigation = \<lparr>http_method = ''GET'', url = ''https://pwa.example/about.html'',
                       mode = ''navigate'', destination = ''document''\<rparr>"

text \<open>A server that answers every URL with status 404.\<close>

definition missing :: "string \<Rightarrow> response" where
  "missing u = \<lparr>rtype = ''basic'', status = 404, body = ''no '' @ u\<rparr>"

definition not_found :: platform where
  "not_found = \<lparr>origin = ''https://pwa.example'', resolve = sample_resolve,
                network = (\<lambda>u. Fulfilled (Some (missing u))), put_fails = (\<lambda>u. False)\<rparr>"

text \<open>
  A development setup: the worker is served from \<^verbatim>\<open>http://localhost\<close> (port 80), and
  the page calls an API on another port of the same host, which is another origin.
\<close>

definition localhost :: platform where
  "localhost = \<lparr>origin = ''http://localhost'', resolve = (\<lambda>u. ''http://localhost'' @ drop 1 u),
                network = (\<lambda>u. Fulfilled (Some (served u))), put_fails = (\<lambda>u. False)\<rparr>"

definition api_request :: request where
  "api_request = \<lparr>http_method = ''GET'', url = ''http://localhost:8080/api/items'',
                  mode = ''cors'', destination = []\<rparr>"

section \<open>Auxiliary facts\<close>

subsection \<open>Logging and the cache storage\<close>

lemma trace_emit: "trace (emit e st) = trace st @ [e]"
  by (simp add: emit_def)

lemma caches_emit: "caches (emit e st) = caches st"
  by (simp add: emit_def)

lemma trace_console_log: "trace (console_log m st) = trace st @ [ConsoleLog m]"
  by (simp add: console_log_def emit_def)

lemma caches_console_log: "caches (console_log m st) = caches st"
  by (simp add: console_log_def emit_def)

lemma trace_console_error: "trace (console_error m e st) = trace st @ [ConsoleError m e]"
  by (simp add: console_error_def emit_def)

lemma caches_console_error: "caches (console_error m e st) = caches st"
  by (simp add: console_error_def emit_def)

lemma trace_caches_open: "trace (caches_open n st) = trace st"
  by (simp add: caches_open_def)

lemma caches_caches_open:
  "caches (caches_open n st) =
     (if n \<in> set (cache_names (caches st)) then caches st else caches st @ [(n, Map.empty)])"
  by (simp add: caches_open_def)

lemma name_caches_open: "n \<in> set (cache_names (caches (caches_open n st)))"
  by (simp add: caches_open_def cache_names_def)

lemma trace_store_in: "trace (store_in n kvs st) = trace st"
  by (simp add: store_in_def)

lemma caches_store_in:
  "caches (store_in n kvs st) =
     map (\<lambda>nc. if fst nc = n then (fst nc, store_all kvs (snd nc)) else nc) (caches st)"
  by (simp add: store_in_def)

lemma store_all_map_add: "store_all kvs c = c ++ map_of (rev kvs)"
  by (induction kvs arbitrary: c) (auto simp: map_add_def fun_eq_iff split: option.splits)

lemma store_all_idem: "store_all kvs (store_all kvs c) = store_all kvs c"
  by (simp add: store_all_map_add map_add_def fun_eq_iff split: option.splits)

lemma caches_emit_fetches: "caches (emit_fetches env urls st) = caches st"
  by (simp add: emit_fetches_def)

lemma trace_emit_fetches:
  "trace (emit_fetches env urls st) = trace st @ map (\<lambda>u. NetFetch (resolve env u)) urls"
  by (simp add: emit_fetches_def)

lemma addAll_Done:
  "fst (addAll env n urls st) = Done \<longleftrightarrow>
     (\<exists>kvs. fetch_all env urls = Inr kvs \<and> \<not> list_ex (\<lambda>kv. put_fails env (fst kv)) kvs)"
  by (auto simp: addAll_def Let_def split: sum.splits)

lemma addAll_state:
  "snd (addAll env n urls st) =
     (case fetch_all env urls of
        Inl e \<Rightarrow> emit_fetches env urls st
      | Inr kvs \<Rightarrow> if list_ex (\<lambda>kv. put_fails env (fst kv)) kvs then emit_fetches env urls st
                   else store_in n kvs (emit_fetches env urls st))"
  by (auto simp: addAll_def Let_def split: sum.splits)

lemma addAll_outcome_indep: "fst (addAll env n urls st) = fst (addAll env n urls st')"
  by (auto simp: addAll_def Let_def split: sum.splits)

subsection \<open>The install chain\<close>

lemma install_chain_unfold:
  "install_chain env st =
     (let st2 = console_log ''[ServiceWorker] Caching app shell''
                  (caches_open CACHE_NAME (console_log ''[ServiceWorker] Install'' st));
          st3 = snd (addAll env CACHE_NAME CACHE_URLS st2)
      in case fst (addAll env CACHE_NAME CACHE_URLS st2) of
           Failed e \<Rightarrow> (Failed e, st3)
         | Done \<Rightarrow> (Done, emit SkipWaiting (console_log ''[ServiceWorker] Skip waiting'' st3)))"
  by (simp add: install_chain_def Let_def split: prod.splits completion.splits)

lemma install_chain_outcome:
  "fst (install_chain env st) = fst (addAll env CACHE_NAME CACHE_URLS st)"
proof -
  let ?st2 = "console_log ''[ServiceWorker] Caching app shell''
                (caches_open CACHE_NAME (console_log ''[ServiceWorker] Install'' st))"
  have "fst (install_chain env st) = fst (addAll env CACHE_NAME CACHE_URLS ?st2)"
    by (simp add: install_chain_unfold Let_def split: completion.splits)
  then show ?thesis
    using addAll_outcome_indep [of env CACHE_NAME CACHE_URLS ?st2 st] by simp
qed

lemma install_outcome: "fst (install env st) = Done"
  by (simp add: install_def split: prod.splits completion.splits)

lemma caches_open_console_log:
  "caches (caches_open n (console_log m st)) = caches (caches_open n st)"
  by (simp add: caches_caches_open caches_console_log)

lemma caches_addAll_cong:
  "caches st = caches st' \<Longrightarrow>
   caches (snd (addAll env n urls st)) = caches (snd (addAll env n urls st'))"
  by (simp add: addAll_state caches_store_in caches_emit_fetches split: sum.splits)

lemma caches_install_chain:
  "caches (snd (install_chain env st)) =
     caches (snd (addAll env CACHE_NAME CACHE_URLS (caches_open CACHE_NAME st)))"
proof -
  let ?st2 = "console_log ''[ServiceWorker] Caching app shell''
                (caches_open CACHE_NAME (console_log ''[ServiceWorker] Install'' st))"
  have "caches (snd (install_chain env st)) = caches (snd (addAll env CACHE_NAME CACHE_URLS ?st2))"
    by (simp add: install_chain_unfold Let_def caches_emit caches_console_log
          split: completion.splits)
  moreover have "caches ?st2 = caches (caches_open CACHE_NAME st)"
    by (simp add: caches_console_log caches_open_console_log)
  ultimately show ?thesis
    using caches_addAll_cong [of ?st2 "caches_open CACHE_NAME st"] by simp
qed

lemma caches_install: "caches (snd (install env st)) = caches (snd (install_chain env st))"
  by (simp add: install_def caches_console_error split: prod.splits completion.splits)

lemma caches_addAll:
  "caches (snd (addAll env n urls st)) =
     (case fetch_all env urls of
        Inl e \<Rightarrow> caches st
      | Inr kvs \<Rightarrow> if list_ex (\<lambda>kv. put_fails env (fst kv)) kvs then caches st
                   else map (\<lambda>nc. if fst nc = n then (fst nc, store_all kvs (snd nc)) else nc) (caches st))"
  by (simp add: addAll_state caches_store_in caches_emit_fetches split: sum.splits)

lemma names_addAll: "cache_names (caches (snd (addAll env n urls st))) = cache_names (caches st)"
  by (simp add: caches_addAll cache_names_def comp_def split: sum.splits)

lemma caches_open_present:
  "n \<in> set (cache_names (caches st)) \<Longrightarrow> caches_open n st = st"
  by (simp add: caches_open_def)

lemma caches_addAll_twice:
  assumes "caches st' = caches (snd (addAll env n urls st))"
  shows "caches (snd (addAll env n urls st')) = caches (snd (addAll env n urls st))"
  using assms by (simp add: caches_addAll store_all_idem comp_def split: sum.splits)

lemma fetch_all_keys:
  "fetch_all env urls = Inr kvs \<Longrightarrow> map fst kvs = map (resolve env) urls"
  by (induction urls arbitrary: kvs)
     (auto split: settled.splits option.splits if_splits sum.splits)

lemma fetch_all_answers:
  "fetch_all env urls = Inr kvs \<Longrightarrow> (k, r) \<in> set kvs \<Longrightarrow>
   network env k = Fulfilled (Some r) \<and> addable r"
  by (induction urls arbitrary: kvs)
     (auto split: settled.splits option.splits if_splits sum.splits)

lemma fetch_all_fails:
  "u \<in> set urls \<Longrightarrow> \<forall>r. network env (resolve env u) = Fulfilled (Some r) \<longrightarrow> \<not> addable r \<Longrightarrow>
   \<exists>e. fetch_all env urls = Inl e"
  by (induction urls) (auto split: settled.splits option.splits sum.splits)

lemma fetch_all_lookup:
  assumes "fetch_all env urls = Inr kvs" and "u \<in> set urls"
  shows "\<exists>r. map_of (rev kvs) (resolve env u) = Some r \<and>
             network env (resolve env u) = Fulfilled (Some r)"
proof -
  have "resolve env u \<in> fst ` set (rev kvs)"
  proof -
    have "resolve env u \<in> set (map fst kvs)"
      using assms by (simp add: fetch_all_keys)
    then show ?thesis by simp
  qed
  then obtain r where r: "map_of (rev kvs) (resolve env u) = Some r"
    by (meson domD domI map_of_eq_None_iff not_None_eq)
  then have "(resolve env u, r) \<in> set kvs"
    by (metis map_of_SomeD set_rev)
  with assms(1) r show ?thesis
    by (auto dest: fetch_all_answers)
qed

lemma addAll_fails:
  assumes "u \<in> set urls"
    and "(\<forall>r. network env (resolve env u) = Fulfilled (Some r) \<longrightarrow> \<not> addable r) \<or>
         put_fails env (resolve env u)"
  shows "\<exists>e. fst (addAll env n urls st) = Failed e"
proof (cases "fetch_all env urls")
  case (Inl e)
  then show ?thesis by (simp add: addAll_def)
next
  case (Inr kvs)
  with assms(1) fetch_all_fails [of u urls env]
  have "\<not> (\<forall>r. network env (resolve env u) = Fulfilled (Some r) \<longrightarrow> \<not> addable r)"
    by auto
  with assms(2) have "put_fails env (resolve env u)" by blast
  moreover have "resolve env u \<in> set (map fst kvs)"
    using Inr assms(1) by (simp add: fetch_all_keys)
  ultimately have "list_ex (\<lambda>kv. put_fails env (fst kv)) kvs"
    by (force simp: list_ex_iff)
  with Inr show ?thesis by (simp add: addAll_def)
qed

lemma cache_match_store:
  "n \<in> set (cache_names cs) \<Longrightarrow> map_of (rev kvs) k = Some r \<Longrightarrow>
   cache_match (map (\<lambda>nc. if fst nc = n then (fst nc, store_all kvs (snd nc)) else nc) cs) n k = Some r"
  by (induction cs) (auto simp: cache_match_def cache_names_def store_all_map_add)

lemma fetch_all_succeeds:
  "\<forall>u \<in> set urls. \<exists>r. network env (resolve env u) = Fulfilled (Some r) \<and> addable r \<Longrightarrow>
   \<exists>kvs. fetch_all env urls = Inr kvs"
  by (induction urls) auto

text \<open>
  The install chain is fulfilled exactly when every manifest entry is answered with a
  response that \<^verbatim>\<open>addAll\<close> accepts and the storage takes every one of them.
\<close>

lemma install_chain_Done_iff:
  "fst (install_chain env st) = Done \<longleftrightarrow>
     (\<forall>u \<in> set CACHE_URLS.
        (\<exists>r. network env (resolve env u) = Fulfilled (Some r) \<and> addable r) \<and>
        \<not> put_fails env (resolve env u))"
proof
  assume chain: "fst (install_chain env st) = Done"
  show "\<forall>u \<in> set CACHE_URLS.
        (\<exists>r. network env (resolve env u) = Fulfilled (Some r) \<and> addable r) \<and>
        \<not> put_fails env (resolve env u)"
  proof
    fix u assume u: "u \<in> set CACHE_URLS"
    show "(\<exists>r. network env (resolve env u) = Fulfilled (Some r) \<and> addable r) \<and>
        \<not> put_fails env (resolve env u)"
    proof (rule ccontr)
      assume "\<not> ?thesis"
      then have "(\<forall>r. network env (resolve env u) = Fulfilled (Some r) \<longrightarrow> \<not> addable r) \<or>
         put_fails env (resolve env u)" by blast
      from addAll_fails [OF u this, of CACHE_NAME st] chain show False
        by (auto simp: install_chain_outcome)
    qed
  qed
next
  assume ok: "\<forall>u \<in> set CACHE_URLS.
        (\<exists>r. network env (resolve env u) = Fulfilled (Some r) \<and> addable r) \<and>
        \<not> put_fails env (resolve env u)"
  then obtain kvs where kvs: "fetch_all env CACHE_URLS = Inr kvs"
    using fetch_all_succeeds [of CACHE_URLS env] by blast
  have "set (map fst kvs) = resolve env ` set CACHE_URLS"
    by (simp add: fetch_all_keys [OF kvs])
  with ok have "\<not> list_ex (\<lambda>kv. put_fails env (fst kv)) kvs"
    by (force simp: list_ex_iff)
  with kvs show "fst (install_chain env st) = Done"
    by (simp add: install_chain_outcome addAll_Done)
qed

subsection \<open>The fetch listener's branches\<close>

lemma network_calls_append: "network_calls (xs @ ys) = network_calls xs + network_calls ys"
  by (induction xs rule: network_calls.induct) auto

lemma fetch_listener_skips:
  "http_method req \<noteq> ''GET'' \<or> \<not> startsWith (url req) (origin env) \<Longrightarrow>
   fetch_listener env st req = (PassThrough, st)"
  by (auto simp: fetch_listener_def)

lemma fetch_listener_hit:
  assumes "http_method req = ''GET''" and "startsWith (url req) (origin env)"
    and "caches_match (caches st) (url req) = Some r"
  shows "fetch_listener env st req =
           (RespondWith (Fulfilled (Some r)),
            console_log (''[ServiceWorker] Serving from cache: '' @ url req) st)"
  using assms by (simp add: fetch_listener_def)

lemma fetch_listener_miss:
  assumes "http_method req = ''GET''" and "startsWith (url req) (origin env)"
    and "caches_match (caches st) (url req) = None"
  shows "fetch_listener env st req =
     (let st1 = emit (NetFetch (url req))
                  (console_log (''[ServiceWorker] Fetching: '' @ url req) st)
      in case network env (url req) of
           Fulfilled None \<Rightarrow> (RespondWith (Fulfilled None), st1)
         | Fulfilled (Some networkResponse) \<Rightarrow>
             if status networkResponse \<noteq> 200
             then (RespondWith (Fulfilled (Some networkResponse)), st1)
             else (RespondWith (Fulfilled (Some networkResponse)),
                   cache_put env CACHE_NAME (url req) networkResponse st1)
         | Rejected e \<Rightarrow>
             (let st2 = console_error ''[ServiceWorker] Fetch failed:'' e st1
              in if mode req = ''navigate''
                 then (RespondWith
                         (Fulfilled (caches_match (caches st2) (resolve env ''./index.html''))),
                       st2)
                 else (RespondWith (Rejected e), st2)))"
  using assms by (simp add: fetch_listener_def)

lemma trace_cache_put: "trace (cache_put env n k r st) = trace st"
  by (simp add: cache_put_def Let_def trace_store_in trace_caches_open)

lemma caches_match_append:
  "caches_match (cs @ cs') k = (case caches_match cs k of Some r \<Rightarrow> Some r | None \<Rightarrow> caches_match cs' k)"
  by (induction cs) (auto split: option.splits)

lemma caches_match_store:
  "caches_match cs k = None \<Longrightarrow> n \<in> set (cache_names cs) \<Longrightarrow>
   caches_match (map (\<lambda>nc. if fst nc = n then (fst nc, store_all [(k, r)] (snd nc)) else nc) cs) k = Some r"
  by (induction cs) (force simp: cache_names_def split: option.splits)+

lemma caches_match_cache_put:
  assumes "caches_match (caches st) k = None" and "\<not> put_fails env k"
  shows "caches_match (caches (cache_put env n k r st)) k = Some r"
proof -
  have "caches_match (caches (caches_open n st)) k = None"
    using assms(1) by (simp add: caches_caches_open caches_match_append)
  then show ?thesis
    using assms(2) caches_match_store [of "caches (caches_open n st)" k n r]
    by (simp add: cache_put_def Let_def caches_store_in name_caches_open)
qed


lemma cache_put_entries:
  assumes "(n', c) \<in> set (caches (cache_put env n k r st))" and "c k' = Some r'"
  shows "r' = r \<or> (\<exists>c0. (n', c0) \<in> set (caches st) \<and> c0 k' = Some r')"
proof -
  have opened: "\<exists>c0. (m, c0) \<in> set (caches st) \<and> c0 k' = Some r'"
    if "(m, d) \<in> set (caches (caches_open n st))" and "d k' = Some r'" for m d
    using that by (auto simp: caches_caches_open split: if_splits)
  show ?thesis
  proof (cases "put_fails env k")
    case True
    with assms opened show ?thesis
      by (auto simp: cache_put_def Let_def)
  next
    case False
    with assms(1) obtain d where d: "(n', d) \<in> set (caches (caches_open n st))"
      and c: "c = d \<or> c = d(k \<mapsto> r)"
      by (auto simp: cache_put_def Let_def caches_store_in split: if_splits)
    show ?thesis
    proof (cases "r' = r")
      case True
      then show ?thesis by simp
    next
      case False
      with c assms(2) have "d k' = Some r'"
        by (auto split: if_splits)
      with d opened show ?thesis by blast
    qed
  qed
qed

lemma fetch_listener_entries:
  assumes "(n, c) \<in> set (caches (snd (fetch_listener env st req)))" and "c k = Some r"
  shows "status r = 200 \<or> (\<exists>c0. (n, c0) \<in> set (caches st) \<and> c0 k = Some r)"
proof (cases "http_method req = ''GET'' \<and> startsWith (url req) (origin env)")
  case False
  then have "fetch_listener env st req = (PassThrough, st)"
    by (auto simp: fetch_listener_def)
  with assms show ?thesis by auto
next
  case eligible: True
  show ?thesis
  proof (cases "caches_match (caches st) (url req)")
    case (Some cached)
    with eligible assms show ?thesis
      by (auto simp: fetch_listener_hit caches_console_log)
  next
    case None
    let ?st1 = "emit (NetFetch (url req)) (console_log (''[ServiceWorker] Fetching: '' @ url req) st)"
    have st1: "caches ?st1 = caches st"
      by (simp add: caches_emit caches_console_log)
    show ?thesis
    proof (cases "\<exists>nr. network env (url req) = Fulfilled (Some nr) \<and> status nr = 200")
      case True
      then obtain nr where nr: "network env (url req) = Fulfilled (Some nr)" "status nr = 200"
        by blast
      with eligible None have "snd (fetch_listener env st req) = cache_put env CACHE_NAME (url req) nr ?st1"
        by (simp add: fetch_listener_miss Let_def)
      with assms cache_put_entries [of n c env CACHE_NAME "url req" nr ?st1 k r] nr(2) st1
      show ?thesis by auto
    next
      case False
      with eligible None have "caches (snd (fetch_listener env st req)) = caches st"
        by (auto simp: fetch_listener_miss Let_def caches_emit caches_console_log
              caches_console_error split: settled.splits option.splits)
      with assms show ?thesis by auto
    qed
  qed
qed

subsection \<open>The deletion of the stale caches\<close>

lemma names_remove_old:
  "cache_names (caches (remove_old ns st)) = filter (\<lambda>n. n \<notin> set ns) (cache_names (caches st))"
proof (induction ns arbitrary: st)
  case Nil
  then show ?case by simp
next
  case (Cons n ns)
  have "cache_names (caches (caches_delete n (console_log m st))) =
        filter (\<lambda>x. x \<noteq> n) (cache_names (caches st))" for m
    by (simp add: caches_delete_def caches_emit caches_console_log cache_names_def filter_map comp_def)
  with Cons show ?case
    by (auto simp: conj_commute intro: filter_cong)
qed

lemma trace_remove_old:
  "trace (remove_old ns st) =
     trace st @ concat (map (\<lambda>n. [ConsoleLog (''[ServiceWorker] Removing old cache: '' @ n), CacheDelete n]) ns)"
  by (induction ns arbitrary: st)
     (simp_all add: caches_delete_def trace_emit trace_console_log)

section \<open>The install listener\<close>

text \<open>
  C1, as the code has it. When a manifest entry cannot be fetched (its fetch rejects, or
  its response is not one that \<^verbatim>\<open>addAll\<close> accepts) or cannot be stored, the listener's
  \<^verbatim>\<open>catch\<close> takes the rejection: the promise handed to \<^verbatim>\<open>waitUntil\<close> is fulfilled
  all the same, no manifest entry has been stored (the cache storage is what opening the
  current cache leaves), and the new effects are the two log lines, the fetches and the
  logged failure, with no request to skip waiting among them.
\<close>

theorem install_failure_swallowed:
  assumes "u \<in> set CACHE_URLS"
    and "(\<forall>r. network env (resolve env u) = Fulfilled (Some r) \<longrightarrow> \<not> addable r) \<or>
         put_fails env (resolve env u)"
  shows "fst (install env st) = Done \<and>
         caches (snd (install env st)) = caches (caches_open CACHE_NAME st) \<and>
         (\<exists>e. trace (snd (install env st)) =
                trace st @
                [ConsoleLog ''[ServiceWorker] Install'', ConsoleLog ''[ServiceWorker] Caching app shell''] @
                map (\<lambda>u. NetFetch (resolve env u)) CACHE_URLS @
                [ConsoleError ''[ServiceWorker] Cache failed:'' e])"
proof -
  let ?st2 = "console_log ''[ServiceWorker] Caching app shell''
                (caches_open CACHE_NAME (console_log ''[ServiceWorker] Install'' st))"
  from addAll_fails [OF assms] obtain e
    where e: "fst (addAll env CACHE_NAME CACHE_URLS ?st2) = Failed e" by blast
  then have st3: "snd (addAll env CACHE_NAME CACHE_URLS ?st2) = emit_fetches env CACHE_URLS ?st2"
    by (auto simp: addAll_def Let_def split: sum.splits if_splits)
  from e st3 have chain: "install_chain env st = (Failed e, emit_fetches env CACHE_URLS ?st2)"
    by (simp add: install_chain_unfold Let_def)
  then have inst: "install env st =
      (Done, console_error ''[ServiceWorker] Cache failed:'' e (emit_fetches env CACHE_URLS ?st2))"
    by (simp add: install_def)
  have "caches (snd (install env st)) = caches (caches_open CACHE_NAME st)"
    by (simp add: inst caches_console_error caches_emit_fetches caches_console_log
          caches_open_console_log)
  moreover have "trace (snd (install env st)) =
                trace st @
                [ConsoleLog ''[ServiceWorker] Install'', ConsoleLog ''[ServiceWorker] Caching app shell''] @
                map (\<lambda>u. NetFetch (resolve env u)) CACHE_URLS @
                [ConsoleError ''[ServiceWorker] Cache failed:'' e]"
    by (simp add: inst trace_console_error trace_emit_fetches trace_console_log trace_caches_open)
  ultimately show ?thesis
    by (simp add: inst)
qed

text \<open>
  C1 as stated fails: offline, the first manifest entry cannot be fetched and the chain
  rejects, yet the promise handed to \<^verbatim>\<open>waitUntil\<close> is fulfilled, which tells the
  runtime that the install succeeded.
\<close>

theorem install_offline_signals_success:
  "fst (install_chain offline fresh_worker) = Failed (TypeError ''Failed to fetch'') \<and>
   fst (install offline fresh_worker) = Done"
  by (simp add: install_def install_chain_def addAll_def offline_def CACHE_URLS_def
        sample_resolve_def split: prod.splits)

theorem install_failure_swallowed_witness:
  "''./'' \<in> set CACHE_URLS \<and>
   network offline (resolve offline ''./'') = Rejected (TypeError ''Failed to fetch'') \<and>
   fst (install offline fresh_worker) = Done \<and>
   caches (snd (install offline fresh_worker)) = [(CACHE_NAME, Map.empty)] \<and>
   (\<exists>e. trace (snd (install offline fresh_worker)) =
          [ConsoleLog ''[ServiceWorker] Install'', ConsoleLog ''[ServiceWorker] Caching app shell''] @
          map (\<lambda>u. NetFetch (resolve offline u)) CACHE_URLS @
          [ConsoleError ''[ServiceWorker] Cache failed:'' e])"
  using install_failure_swallowed [of "''./''" offline fresh_worker]
  by (simp add: CACHE_URLS_def offline_def fresh_worker_def caches_open_def cache_names_def)

text \<open>
  C7, as the code has it. When every one of the 13 manifest entries is answered with a
  response that \<^verbatim>\<open>addAll\<close> accepts and the storage takes every one of them, then
  after the install, which is reported as fulfilled, every entry is in the current cache:
  looking its URL up there gives a stored response, the one the network gave for that
  URL.
\<close>

theorem install_precaches_manifest:
  assumes "\<forall>u \<in> set CACHE_URLS.
             (\<exists>r. network env (resolve env u) = Fulfilled (Some r) \<and> addable r) \<and>
             \<not> put_fails env (resolve env u)"
  shows "length CACHE_URLS = 13 \<and>
         fst (install env st) = Done \<and>
         (\<forall>u \<in> set CACHE_URLS. \<exists>r.
            cache_match (caches (snd (install env st))) CACHE_NAME (resolve env u) = Some r \<and>
            network env (resolve env u) = Fulfilled (Some r))"
proof -
  from assms have "fst (install_chain env st) = Done"
    by (simp add: install_chain_Done_iff)
  then obtain kvs where kvs: "fetch_all env CACHE_URLS = Inr kvs"
    and ok: "\<not> list_ex (\<lambda>kv. put_fails env (fst kv)) kvs"
    by (auto simp: install_chain_outcome addAll_Done)
  let ?cs = "caches (caches_open CACHE_NAME st)"
  have cs: "caches (snd (install env st)) =
        map (\<lambda>nc. if fst nc = CACHE_NAME then (fst nc, store_all kvs (snd nc)) else nc) ?cs"
    using kvs ok by (simp add: caches_install caches_install_chain caches_addAll)
  have "\<exists>r. cache_match (caches (snd (install env st))) CACHE_NAME (resolve env u) = Some r \<and>
            network env (resolve env u) = Fulfilled (Some r)" if "u \<in> set CACHE_URLS" for u
  proof -
    from fetch_all_lookup [OF kvs that] obtain r
      where "map_of (rev kvs) (resolve env u) = Some r"
        and "network env (resolve env u) = Fulfilled (Some r)" by blast
    then show ?thesis
      using cache_match_store [of CACHE_NAME ?cs kvs "resolve env u" r]
      by (simp add: cs name_caches_open)
  qed
  moreover have "length CACHE_URLS = 13"
    by (simp add: CACHE_URLS_def)
  moreover have "fst (install env st) = Done"
    by (rule install_outcome)
  ultimately show ?thesis by blast
qed

text \<open>
  C7 as stated fails: offline, the install is reported as fulfilled, yet the manifest
  entry \<^verbatim>\<open>./index.html\<close> is not in the current cache.
\<close>

theorem install_offline_stores_nothing:
  "fst (install offline fresh_worker) = Done \<and>
   cache_match (caches (snd (install offline fresh_worker))) CACHE_NAME
     (resolve offline ''./index.html'') = None"
  by (simp add: install_def install_chain_def addAll_def offline_def CACHE_URLS_def
        sample_resolve_def fresh_worker_def caches_open_def cache_names_def console_log_def
        console_error_def emit_def emit_fetches_def cache_match_def Let_def)

theorem install_precaches_manifest_witness:
  "fst (install online fresh_worker) = Done \<and>
   length CACHE_URLS = 13 \<and>
   cache_match (caches (snd (install online fresh_worker))) CACHE_NAME
     ''https://pwa.example/icons/icon-512.png'' = Some (served ''https://pwa.example/icons/icon-512.png'')"
proof -
  have answered: "\<forall>u \<in> set CACHE_URLS.
      (\<exists>r. network online (resolve online u) = Fulfilled (Some r) \<and> addable r) \<and>
      \<not> put_fails online (resolve online u)"
    by (simp add: CACHE_URLS_def online_def served_def addable_def)
  have "''./icons/icon-512.png'' \<in> set CACHE_URLS"
    by (simp add: CACHE_URLS_def)
  with install_precaches_manifest [OF answered, of fresh_worker] show ?thesis
    by (fastforce simp: online_def sample_resolve_def)
qed

text \<open>
  C9. Installing a second time, on the same platform, leaves the cache storage as the
  first install left it.
\<close>

theorem install_twice:
  "caches (snd (install env (snd (install env st)))) = caches (snd (install env st))"
proof -
  let ?st1 = "snd (install env st)"
  let ?opened = "caches_open CACHE_NAME st"
  have first: "caches ?st1 = caches (snd (addAll env CACHE_NAME CACHE_URLS ?opened))"
    by (simp add: caches_install caches_install_chain)
  have "CACHE_NAME \<in> set (cache_names (caches ?st1))"
    by (simp add: first names_addAll name_caches_open)
  then have "caches_open CACHE_NAME ?st1 = ?st1"
    by (rule caches_open_present)
  then have "caches (snd (install env ?st1)) = caches (snd (addAll env CACHE_NAME CACHE_URLS ?st1))"
    by (simp add: caches_install caches_install_chain)
  also have "\<dots> = caches (snd (addAll env CACHE_NAME CACHE_URLS ?opened))"
    using first by (rule caches_addAll_twice)
  finally show ?thesis
    using first by simp
qed

theorem install_twice_witness:
  "caches (snd (install online (snd (install online fresh_worker)))) =
   caches (snd (install online fresh_worker))"
  using install_twice [of online fresh_worker] by simp

section \<open>The activate listener\<close>

text \<open>
  C3. Activation is fulfilled, and afterwards no cache name that the storage knew before
  and that differs from the current name is left. The deletions come before the claim:
  the effects of the activation end with the claim of the clients, and the deletion of
  every stale cache is among the effects before it.
\<close>

theorem activate_removes_old_caches:
  "fst (activate st) = Done \<and>
   (\<forall>n \<in> set (cache_names (caches st)).
      n \<noteq> CACHE_NAME \<longrightarrow> n \<notin> set (cache_names (caches (snd (activate st))))) \<and>
   (\<exists>before. trace (snd (activate st)) =
        trace st @ before @ [ConsoleLog ''[ServiceWorker] Claiming clients'', ClientsClaim] \<and>
      ClientsClaim \<notin> set before \<and>
      (\<forall>n \<in> set (cache_names (caches st)). n \<noteq> CACHE_NAME \<longrightarrow> CacheDelete n \<in> set before))"
proof -
  let ?old = "filter (\<lambda>cacheName. cacheName \<noteq> CACHE_NAME) (cache_names (caches st))"
  let ?before = "ConsoleLog ''[ServiceWorker] Activate'' #
     concat (map (\<lambda>n. [ConsoleLog (''[ServiceWorker] Removing old cache: '' @ n), CacheDelete n]) ?old)"
  have names: "cache_names (caches (snd (activate st))) =
      filter (\<lambda>n. n \<notin> set ?old) (cache_names (caches st))"
    by (simp add: activate_def activate_claim_def activate_cleanup_def caches_emit
          caches_console_log names_remove_old)
  have tr: "trace (snd (activate st)) =
      trace st @ ?before @ [ConsoleLog ''[ServiceWorker] Claiming clients'', ClientsClaim]"
    by (simp add: activate_def activate_claim_def activate_cleanup_def trace_emit
          trace_console_log caches_console_log trace_remove_old)
  have "ClientsClaim \<notin> set ?before"
    by auto
  moreover have "\<forall>n \<in> set (cache_names (caches st)). n \<noteq> CACHE_NAME \<longrightarrow> CacheDelete n \<in> set ?before"
    by auto
  moreover have "\<forall>n \<in> set (cache_names (caches st)).
      n \<noteq> CACHE_NAME \<longrightarrow> n \<notin> set (cache_names (caches (snd (activate st))))"
    by (simp add: names)
  moreover have "fst (activate st) = Done"
    by (simp add: activate_def)
  ultimately show ?thesis
    using tr by blast
qed

theorem activate_removes_old_caches_witness:
  "cache_names (caches primed_worker) = [''pwa-getstarted-v0'', ''pwa-getstarted-v1''] \<and>
   ''pwa-getstarted-v0'' \<notin> set (cache_names (caches (snd (activate primed_worker)))) \<and>
   trace (snd (activate primed_worker)) =
     [ConsoleLog ''[ServiceWorker] Activate'',
      ConsoleLog ''[ServiceWorker] Removing old cache: pwa-getstarted-v0'',
      CacheDelete ''pwa-getstarted-v0'',
      ConsoleLog ''[ServiceWorker] Claiming clients'', ClientsClaim]"
proof -
  have names: "cache_names (caches primed_worker) = [''pwa-getstarted-v0'', ''pwa-getstarted-v1'']"
    by (simp add: primed_worker_def cache_names_def)
  have "trace (snd (activate primed_worker)) =
     [ConsoleLog ''[ServiceWorker] Activate'',
      ConsoleLog ''[ServiceWorker] Removing old cache: pwa-getstarted-v0'',
      CacheDelete ''pwa-getstarted-v0'',
      ConsoleLog ''[ServiceWorker] Claiming clients'', ClientsClaim]"
    by (simp add: activate_def activate_claim_def activate_cleanup_def caches_delete_def
          emit_def console_log_def primed_worker_def cache_names_def CACHE_NAME_def)
  moreover have "''pwa-getstarted-v0'' \<notin> set (cache_names (caches (snd (activate primed_worker))))"
    using activate_removes_old_caches [of primed_worker]
    by (simp add: names CACHE_NAME_def)
  ultimately show ?thesis
    using names by simp
qed

section \<open>The fetch listener\<close>

text \<open>
  C4 at a request to another origin. The worker's origin is \<^verbatim>\<open>http://localhost\<close>; the
  request goes to \<^verbatim>\<open>http://localhost:8080\<close>, which is another origin, but its URL
  begins with the text of the worker's origin, so the guard does not skip it: the
  listener responds with the network's answer and writes it into the cache.
\<close>

theorem cross_origin_prefix_handled:
  "origin localhost = ''http://localhost'' \<and>
   url_origin (url api_request) = ''http://localhost:8080'' \<and>
   fst (fetch_listener localhost fresh_worker api_request) =
     RespondWith (Fulfilled (Some (served ''http://localhost:8080/api/items''))) \<and>
   cache_match (caches (snd (fetch_listener localhost fresh_worker api_request))) CACHE_NAME
     ''http://localhost:8080/api/items'' = Some (served ''http://localhost:8080/api/items'')"
  by (simp add: localhost_def api_request_def url_origin_def fresh_worker_def fetch_listener_def
        served_def cache_put_def caches_open_def store_in_def cache_names_def cache_match_def
        emit_def console_log_def CACHE_NAME_def Let_def)

text \<open>
  C8. For a GET request within the worker's origin: when some cache holds the URL, the
  stored response is the answer and the number of network fetches does not change; and
  a first fetch of a URL not yet held, answered by the network with status 200 and
  stored, leaves the URL held with that response.
\<close>

theorem cache_hit_suppresses_network:
  assumes "http_method req = ''GET''" and "startsWith (url req) (origin env)"
  shows "(\<forall>r. caches_match (caches st) (url req) = Some r \<longrightarrow>
            fst (fetch_listener env st req) = RespondWith (Fulfilled (Some r)) \<and>
            network_calls (trace (snd (fetch_listener env st req))) = network_calls (trace st)) \<and>
         (\<forall>r. caches_match (caches st) (url req) = None \<and>
              network env (url req) = Fulfilled (Some r) \<and> status r = 200 \<and>
              \<not> put_fails env (url req) \<longrightarrow>
            caches_match (caches (snd (fetch_listener env st req))) (url req) = Some r)"
  using assms
  by (simp add: fetch_listener_hit fetch_listener_miss Let_def trace_console_log
        network_calls_append caches_match_cache_put caches_emit caches_console_log)

theorem cache_hit_suppresses_network_witness:
  "fst (fetch_listener online fresh_worker image_request) =
     RespondWith (Fulfilled (Some (served ''https://pwa.example/photo.png''))) \<and>
   network_calls (trace (snd (fetch_listener online fresh_worker image_request))) = 1 \<and>
   fst (fetch_listener online (snd (fetch_listener online fresh_worker image_request)) image_request) =
     RespondWith (Fulfilled (Some (served ''https://pwa.example/photo.png''))) \<and>
   network_calls (trace (snd (fetch_listener online
       (snd (fetch_listener online fresh_worker image_request)) image_request))) = 1"
proof -
  let ?st1 = "snd (fetch_listener online fresh_worker image_request)"
  have first: "fst (fetch_listener online fresh_worker image_request) =
     RespondWith (Fulfilled (Some (served ''https://pwa.example/photo.png'')))"
    and calls: "network_calls (trace ?st1) = 1"
    by (simp_all add: fetch_listener_def online_def fresh_worker_def image_request_def served_def
          Let_def trace_cache_put trace_emit trace_console_log)
  have primed: "caches_match (caches ?st1) (url image_request) =
      Some (served ''https://pwa.example/photo.png'')"
    using cache_hit_suppresses_network [of image_request online fresh_worker]
    by (simp add: online_def fresh_worker_def image_request_def served_def)
  have "http_method image_request = ''GET''" and "startsWith (url image_request) (origin online)"
    by (simp_all add: image_request_def online_def)
  from cache_hit_suppresses_network [OF this, of ?st1] primed calls
  have "fst (fetch_listener online ?st1 image_request) =
          RespondWith (Fulfilled (Some (served ''https://pwa.example/photo.png''))) \<and>
        network_calls (trace (snd (fetch_listener online ?st1 image_request))) = 1"
    by simp
  with first calls show ?thesis by simp
qed

text \<open>
  C5. When the network's answer to a handled request is undefined or has a status other
  than 200, that answer is what the caller gets, and the cache storage is unchanged. And
  whatever the request, every entry of the storage after the listener has status 200 or
  was an entry of the same cache before.
\<close>

theorem unsuccessful_response_not_stored:
  "(http_method req = ''GET'' \<and> startsWith (url req) (origin env) \<and>
    caches_match (caches st) (url req) = None \<and> network env (url req) = Fulfilled nr \<and>
    (case nr of None \<Rightarrow> True | Some r \<Rightarrow> status r \<noteq> 200) \<longrightarrow>
      fst (fetch_listener env st req) = RespondWith (Fulfilled nr) \<and>
      caches (snd (fetch_listener env st req)) = caches st) \<and>
   (\<forall>n c k r. (n, c) \<in> set (caches (snd (fetch_listener env st req))) \<and> c k = Some r \<longrightarrow>
      status r = 200 \<or> (\<exists>c0. (n, c0) \<in> set (caches st) \<and> c0 k = Some r))"
proof -
  have "fst (fetch_listener env st req) = RespondWith (Fulfilled nr) \<and>
        caches (snd (fetch_listener env st req)) = caches st"
    if "http_method req = ''GET''" and "startsWith (url req) (origin env)"
      and "caches_match (caches st) (url req) = None" and "network env (url req) = Fulfilled nr"
      and "case nr of None \<Rightarrow> True | Some r \<Rightarrow> status r \<noteq> 200"
    using that
    by (auto simp: fetch_listener_miss Let_def caches_emit caches_console_log split: option.splits)
  with fetch_listener_entries [of _ _ env st req] show ?thesis
    by blast
qed

theorem unsuccessful_response_not_stored_witness:
  "network not_found (url image_request) = Fulfilled (Some (missing ''https://pwa.example/photo.png'')) \<and>
   status (missing ''https://pwa.example/photo.png'') = 404 \<and>
   fst (fetch_listener not_found primed_worker image_request) =
     RespondWith (Fulfilled (Some (missing ''https://pwa.example/photo.png''))) \<and>
   caches (snd (fetch_listener not_found primed_worker image_request)) = caches primed_worker"
  using unsuccessful_response_not_stored [of image_request not_found primed_worker
          "Some (missing ''https://pwa.example/photo.png'')"]
  by (simp add: image_request_def not_found_def primed_worker_def missing_def)




text \<open>
  C6, as the code has it. When the network fetch of a handled request rejects and no
  cache holds the request: for a navigation the hand-written worker answers with the
  result of looking \<^verbatim>\<open>./index.html\<close> up in the caches, and otherwise it rejects with
  the same error; the Workbox worker's catch handler answers a navigation with the
  precached \<^verbatim>\<open>./index.html\<close>, and any other request with \<^verbatim>\<open>Response.error()\<close>.
\<close>

theorem failure_fallback:
  assumes "http_method req = ''GET''" and "startsWith (url req) (origin env)"
    and "caches_match (caches st) (url req) = None"
    and "network env (url req) = Rejected e"
  shows "(mode req = ''navigate'' \<longrightarrow>
            fst (fetch_listener env st req) =
              RespondWith (Fulfilled (caches_match (caches st) (resolve env ''./index.html''))) \<and>
            catch_handler matchPrecache req = Fulfilled (matchPrecache ''./index.html'')) \<and>
         (mode req \<noteq> ''navigate'' \<longrightarrow>
            fst (fetch_listener env st req) = RespondWith (Rejected e) \<and>
            catch_handler matchPrecache req = Fulfilled (Some Response_error))"
  using assms
  by (simp add: fetch_listener_miss Let_def caches_emit console_error_def console_log_def
        catch_handler_def)

text \<open>
  C6 as stated fails in the Workbox worker: for a request that is not a navigation, the
  catch handler's promise is fulfilled with a new error response; it is not rejected
  with the original failure.
\<close>

theorem catch_handler_not_rethrow:
  "mode image_request \<noteq> ''navigate'' \<and>
   catch_handler Map.empty image_request = Fulfilled (Some Response_error) \<and>
   catch_handler Map.empty image_request \<noteq> Rejected (TypeError ''Failed to fetch'')"
  by (simp add: catch_handler_def image_request_def)

theorem failure_fallback_witness:
  "fst (fetch_listener offline primed_worker about_navigation) = RespondWith (Fulfilled (Some old_page)) \<and>
   catch_handler [''./index.html'' \<mapsto> old_page] about_navigation = Fulfilled (Some old_page) \<and>
   fst (fetch_listener offline primed_worker image_request) =
     RespondWith (Rejected (TypeError ''Failed to fetch'')) \<and>
   catch_handler [''./index.html'' \<mapsto> old_page] image_request = Fulfilled (Some Response_error)"
  using failure_fallback [of about_navigation offline primed_worker "TypeError ''Failed to fetch''"
          "[''./index.html'' \<mapsto> old_page]"]
        failure_fallback [of image_request offline primed_worker "TypeError ''Failed to fetch''"
          "[''./index.html'' \<mapsto> old_page]"]
  by (simp add: about_navigation_def image_request_def offline_def primed_worker_def
        sample_resolve_def)

text \<open>
  C10. When the network fetch of a navigation rejects and no cache holds
  \<^verbatim>\<open>./index.html\<close>, the promise given to \<^verbatim>\<open>respondWith\<close> is fulfilled with
  \<^verbatim>\<open>undefined\<close>.
\<close>

theorem fallback_absent_undefined:
  assumes "http_method req = ''GET''" and "startsWith (url req) (origin env)"
    and "mode req = ''navigate''"
    and "caches_match (caches st) (url req) = None"
    and "network env (url req) = Rejected e"
    and "caches_match (caches st) (resolve env ''./index.html'') = None"
  shows "fst (fetch_listener env st req) = RespondWith (Fulfilled None)"
  using assms
  by (simp add: fetch_listener_miss Let_def caches_emit console_error_def console_log_def)

theorem fallback_absent_undefined_witness:
  "network offline (url navigation) = Rejected (TypeError ''Failed to fetch'') \<and>
   fst (fetch_listener offline fresh_worker navigation) = RespondWith (Fulfilled None)"
  using fallback_absent_undefined [of navigation offline fresh_worker "TypeError ''Failed to fetch''"]
  by (simp add: navigation_def offline_def fresh_worker_def sample_resolve_def)

end
